theory Spec2Isabelle
  imports Complex_Main "HOL-Library.Sublist"
begin

section \<open>Text model\<close>

text \<open>
  The pipeline works on Python \<open>str\<close> values. A string is modelled as a \<^typ>\<open>string\<close>
  whose characters are the code points \<open>U+0000\<close> to \<open>U+00FF\<close>; the character
  classes below are the ones Python 3 uses on that range (\<open>str.isspace\<close>,
  \<open>str.isdigit\<close>, \<open>str.lower\<close>, and the classes \<open>\s\<close>, \<open>\d\<close>, \<open>\w\<close> of the
  \<open>re\<close> module on \<open>str\<close> patterns). Code points above \<open>U+00FF\<close> are outside
  the model.
\<close>

definition code :: "char \<Rightarrow> nat" where
  "code c = of_char c"

text \<open>\<open>str.isspace\<close> and \<open>\s\<close>: TAB, LF, VT, FF, CR, FS, GS, RS, US, SPACE, NEL, NBSP.\<close>

definition is_space :: "char \<Rightarrow> bool" where
  "is_space c = ((9 \<le> code c \<and> code c \<le> 13) \<or> (28 \<le> code c \<and> code c \<le> 32)
                 \<or> code c = 133 \<or> code c = 160)"

text \<open>\<open>\d\<close>: the decimal digits (category Nd), on this range \<open>0\<close> to \<open>9\<close>.\<close>

definition is_decimal :: "char \<Rightarrow> bool" where
  "is_decimal c = (48 \<le> code c \<and> code c \<le> 57)"

text \<open>\<open>str.isdigit\<close>: the decimal digits and the superscripts two, three and one.\<close>

definition is_digit :: "char \<Rightarrow> bool" where
  "is_digit c = (is_decimal c \<or> code c = 178 \<or> code c = 179 \<or> code c = 185)"

text \<open>\<open>str.isalpha\<close>: the letters of ASCII and of the Latin-1 supplement.\<close>

definition is_alpha :: "char \<Rightarrow> bool" where
  "is_alpha c = ((65 \<le> code c \<and> code c \<le> 90) \<or> (97 \<le> code c \<and> code c \<le> 122)
                 \<or> code c = 170 \<or> code c = 181 \<or> code c = 186
                 \<or> (192 \<le> code c \<and> code c \<le> 214) \<or> (216 \<le> code c \<and> code c \<le> 246)
                 \<or> 248 \<le> code c)"

text \<open>\<open>str.isalnum\<close>: alphabetic, or numeric (digits, superscripts, vulgar fractions).\<close>

definition is_alnum :: "char \<Rightarrow> bool" where
  "is_alnum c = (is_alpha c \<or> is_digit c \<or> (188 \<le> code c \<and> code c \<le> 190))"

text \<open>\<open>\w\<close>: alphanumeric or the underscore.\<close>

definition is_word :: "char \<Rightarrow> bool" where
  "is_word c = (is_alnum c \<or> c = CHR ''_'')"

text \<open>\<open>str.lower\<close>, character by character (no character of this range changes length).\<close>

definition lower_char :: "char \<Rightarrow> char" where
  "lower_char c =
     (if (65 \<le> code c \<and> code c \<le> 90) \<or> (192 \<le> code c \<and> code c \<le> 222 \<and> code c \<noteq> 215)
      then char_of (code c + 32) else c)"

definition lower :: "string \<Rightarrow> string" where
  "lower s = map lower_char s"

text \<open>\<open>str.strip()\<close> with no argument removes leading and trailing whitespace.\<close>

definition lstrip :: "string \<Rightarrow> string" where
  "lstrip s = dropWhile is_space s"

definition rstrip :: "string \<Rightarrow> string" where
  "rstrip s = rev (dropWhile is_space (rev s))"

definition strip :: "string \<Rightarrow> string" where
  "strip s = rstrip (lstrip s)"

text \<open>\<open>sub in s\<close> on strings: \<open>sub\<close> occurs in \<open>s\<close> as a contiguous block.\<close>

fun starts_with :: "string \<Rightarrow> string \<Rightarrow> bool" where
  "starts_with s [] = True"
| "starts_with [] (p # ps) = False"
| "starts_with (c # cs) (p # ps) = (c = p \<and> starts_with cs ps)"

fun contains :: "string \<Rightarrow> string \<Rightarrow> bool" where
  "contains [] sub = (sub = [])"
| "contains (c # cs) sub = (starts_with (c # cs) sub \<or> contains cs sub)"

text \<open>\<open>sep.join(parts)\<close>.\<close>

fun join :: "string \<Rightarrow> string list \<Rightarrow> string" where
  "join sep [] = []"
| "join sep [x] = x"
| "join sep (x # y # ys) = x @ sep @ join sep (y # ys)"

section \<open>Document classifier\<close>

text \<open>
  \<open>DocumentProcessor._is_utility_bill\<close>: the lowercased file name is searched for each of
  the indicators.
\<close>

definition utility_indicators :: "string list" where
  "utility_indicators =
     [''pge'', ''pg&e'', ''pacific gas'', ''electric'',
      ''bill'', ''utility'', ''energy'', ''gas'',
      ''edison'', ''sdge'', ''peco'', ''con ed'']"

definition is_utility_bill :: "string \<Rightarrow> bool" where
  "is_utility_bill filename =
     (let filename_lower = lower filename
      in list_ex (\<lambda>indicator. contains filename_lower indicator) utility_indicators)"

section \<open>Chunker: token windows\<close>

text \<open>
  The tokenizer (\<open>tiktoken\<close>, encoding \<open>cl100k_base\<close>) is a library outside the
  repository: \<open>self.encoding\<close> is a pair of functions, a token is a natural number.
\<close>

record tokenizer =
  encode :: "string \<Rightarrow> nat list"
  decode :: "nat list \<Rightarrow> string"

text \<open>
  \<open>DocumentProcessor.__init__\<close> stores its arguments unchecked; the integers are
  Python's unbounded ones.
\<close>

record processor =
  chunk_size :: int
  chunk_overlap :: int
  use_ocr :: bool
  encoding :: tokenizer

definition init :: "tokenizer \<Rightarrow> int \<Rightarrow> int \<Rightarrow> bool \<Rightarrow> processor" where
  "init enc cs ov ocr =
     \<lparr>chunk_size = cs, chunk_overlap = ov, use_ocr = ocr, encoding = enc\<rparr>"

text \<open>
  The slice \<open>xs[i:j]\<close>: a negative bound counts from the end, and both bounds are
  clamped to the list.
\<close>

definition slice_bound :: "nat \<Rightarrow> int \<Rightarrow> nat" where
  "slice_bound n i = (if i < 0 then nat (max 0 (int n + i)) else min (nat i) n)"

definition py_slice :: "'a list \<Rightarrow> int \<Rightarrow> int \<Rightarrow> 'a list" where
  "py_slice xs i j =
     (let a = slice_bound (length xs) i; b = slice_bound (length xs) j
      in take (b - a) (drop a xs))"

text \<open>
  The \<open>while\<close> loop of \<open>_split_text\<close>, on the token windows (the source decodes each
  window as it appends it; here the windows are decoded after the loop). The loop need
  not terminate, so its result is an option: \<open>None\<close> is a run that never returns.
\<close>

partial_function (option) split_loop ::
  "int \<Rightarrow> int \<Rightarrow> nat list \<Rightarrow> int \<Rightarrow> nat list list \<Rightarrow> nat list list option" where
  "split_loop cs ov tokens start chunks =
     (if start < int (length tokens) then
        (let end' = min (start + cs) (int (length tokens));
             chunk_tokens = py_slice tokens start end';
             chunks' = chunks @ [chunk_tokens]
         in if end' \<ge> int (length tokens) then Some chunks'
            else split_loop cs ov tokens (start + (cs - ov)) chunks')
      else Some chunks)"

declare split_loop.simps [code]

definition split_text :: "processor \<Rightarrow> string \<Rightarrow> string list option" where
  "split_text self text =
     (let tokens = encode (encoding self) text
      in if int (length tokens) \<le> chunk_size self then Some [text]
         else map_option (map (decode (encoding self)))
                (split_loop (chunk_size self) (chunk_overlap self) tokens 0 []))"

text \<open>A tokenizer to run the chunker on: one token per character.\<close>

definition byte_tokenizer :: tokenizer where
  "byte_tokenizer = \<lparr>encode = map of_char, decode = map char_of\<rparr>"

definition C2_example :: processor where
  "C2_example = init byte_tokenizer 4 1 True"

section \<open>Regular expressions\<close>

text \<open>
  The patterns of the repository are run by Python's \<open>re\<close> module, a backtracking
  matcher: alternatives are tried left to right, \<open>*\<close>, \<open>+\<close>, \<open>?\<close> and \<open>{m,n}\<close> take as
  much as they can first, \<open>*?\<close> as little as it can first, and the first way that
  succeeds is the match. A pattern is a value of \<open>rx\<close>; \<open>Chr\<close> is a literal character,
  \<open>ChrI\<close> a literal under \<open>re.IGNORECASE\<close>, \<open>Cls\<close> a character class, \<open>WordB\<close> is \<open>\b\<close>
  and \<open>Grp n\<close> the capturing group number \<open>n\<close>.
\<close>

datatype rx =
    Eps
  | Chr char
  | ChrI char
  | Cls "char \<Rightarrow> bool"
  | Seq rx rx
  | Alt rx rx
  | Opt rx
  | Star rx
  | Lazy rx
  | WordB
  | Grp nat rx

text \<open>
  A matcher state: the character before the current position (none at the start of the
  text), the text from the current position on, and the groups captured so far (the
  latest first).
\<close>

type_synonym mstate = "char option \<times> string \<times> (nat \<times> string) list"

definition rest :: "mstate \<Rightarrow> string" where
  "rest st = fst (snd st)"

definition advances :: "mstate \<Rightarrow> mstate \<Rightarrow> bool" where
  "advances st st' = (length (rest st') < length (rest st))"

text \<open>One character, if it satisfies the test.\<close>

definition step_char :: "(char \<Rightarrow> bool) \<Rightarrow> mstate \<Rightarrow> mstate list" where
  "step_char P st =
     (case st of (p, s, g) \<Rightarrow>
        (case s of [] \<Rightarrow> [] | c # cs \<Rightarrow> if P c then [(Some c, cs, g)] else []))"

text \<open>
  Repetition. Each round of the body must consume a character (the matcher of \<open>re\<close>
  also leaves a repetition whose body matched the empty string), so the length of the
  text bounds the number of rounds.
\<close>

primrec star_greedy :: "nat \<Rightarrow> (mstate \<Rightarrow> mstate list) \<Rightarrow> mstate \<Rightarrow> mstate list" where
  "star_greedy 0 f st = [st]"
| "star_greedy (Suc n) f st =
     concat (map (star_greedy n f) (filter (advances st) (f st))) @ [st]"

primrec star_lazy :: "nat \<Rightarrow> (mstate \<Rightarrow> mstate list) \<Rightarrow> mstate \<Rightarrow> mstate list" where
  "star_lazy 0 f st = [st]"
| "star_lazy (Suc n) f st =
     st # concat (map (star_lazy n f) (filter (advances st) (f st)))"

definition at_word_boundary :: "mstate \<Rightarrow> bool" where
  "at_word_boundary st =
     (case st of (p, s, g) \<Rightarrow>
        ((case p of None \<Rightarrow> False | Some c \<Rightarrow> is_word c)
           \<noteq> (case s of [] \<Rightarrow> False | c # cs \<Rightarrow> is_word c)))"

definition capture :: "nat \<Rightarrow> mstate \<Rightarrow> mstate \<Rightarrow> mstate" where
  "capture n st st' =
     (case st' of (p', s', g') \<Rightarrow>
        (p', s', (n, take (length (rest st) - length s') (rest st)) # g'))"

text \<open>A literal under \<open>re.IGNORECASE\<close> matches a character with the same lowercase form.\<close>

definition same_letter :: "char \<Rightarrow> char \<Rightarrow> bool" where
  "same_letter c x = (lower_char x = lower_char c)"

text \<open>All the ways a pattern matches at a state, in the order the matcher tries them.\<close>

primrec matches :: "rx \<Rightarrow> mstate \<Rightarrow> mstate list" where
  "matches Eps st = [st]"
| "matches (Chr c) st = step_char (\<lambda>x. x = c) st"
| "matches (ChrI c) st = step_char (same_letter c) st"
| "matches (Cls P) st = step_char P st"
| "matches (Seq a b) st = concat (map (matches b) (matches a st))"
| "matches (Alt a b) st = matches a st @ matches b st"
| "matches (Opt a) st = matches a st @ [st]"
| "matches (Star a) st = star_greedy (length (rest st)) (matches a) st"
| "matches (Lazy a) st = star_lazy (length (rest st)) (matches a) st"
| "matches WordB st = (if at_word_boundary st then [st] else [])"
| "matches (Grp n a) st = map (capture n st) (matches a st)"

text \<open>Building patterns: sequences, literals, alternatives, bounded repetition.\<close>

definition seqs :: "rx list \<Rightarrow> rx" where
  "seqs rs = foldr Seq rs Eps"

definition lit :: "string \<Rightarrow> rx" where
  "lit s = seqs (map Chr s)"

fun alts :: "rx list \<Rightarrow> rx" where
  "alts [] = Cls (\<lambda>c. False)"
| "alts [r] = r"
| "alts (r # r' # rs) = Alt r (alts (r' # rs))"

definition one_or_more :: "rx \<Rightarrow> rx" where
  "one_or_more r = Seq r (Star r)"

primrec exactly :: "nat \<Rightarrow> rx \<Rightarrow> rx" where
  "exactly 0 r = Eps"
| "exactly (Suc n) r = Seq r (exactly n r)"

definition at_least :: "nat \<Rightarrow> rx \<Rightarrow> rx" where
  "at_least n r = Seq (exactly n r) (Star r)"

primrec up_to :: "nat \<Rightarrow> rx \<Rightarrow> rx" where
  "up_to 0 r = Eps"
| "up_to (Suc n) r = Opt (Seq r (up_to n r))"

definition between :: "nat \<Rightarrow> nat \<Rightarrow> rx \<Rightarrow> rx" where
  "between m n r = Seq (exactly m r) (up_to (n - m) r)"

definition among :: "string \<Rightarrow> char \<Rightarrow> bool" where
  "among cs c = (c \<in> set cs)"

definition one_of :: "string \<Rightarrow> rx" where
  "one_of cs = Cls (among cs)"

text \<open>
  \<open>re.IGNORECASE\<close>: a literal becomes a \<open>ChrI\<close>; a class is asked about the lowercase
  form of the character and about the uppercase form of that.
\<close>

definition upper_char :: "char \<Rightarrow> char" where
  "upper_char c =
     (if (97 \<le> code c \<and> code c \<le> 122) \<or> (224 \<le> code c \<and> code c \<le> 254 \<and> code c \<noteq> 247)
      then char_of (code c - 32) else c)"

definition either_case :: "(char \<Rightarrow> bool) \<Rightarrow> char \<Rightarrow> bool" where
  "either_case P c = (P (lower_char c) \<or> P (upper_char (lower_char c)))"

primrec ignore_case :: "rx \<Rightarrow> rx" where
  "ignore_case Eps = Eps"
| "ignore_case (Chr c) = ChrI c"
| "ignore_case (ChrI c) = ChrI c"
| "ignore_case (Cls P) = Cls (either_case P)"
| "ignore_case (Seq a b) = Seq (ignore_case a) (ignore_case b)"
| "ignore_case (Alt a b) = Alt (ignore_case a) (ignore_case b)"
| "ignore_case (Opt a) = Opt (ignore_case a)"
| "ignore_case (Star a) = Star (ignore_case a)"
| "ignore_case (Lazy a) = Lazy (ignore_case a)"
| "ignore_case WordB = WordB"
| "ignore_case (Grp n a) = Grp n (ignore_case a)"

text \<open>
  Scanning a text for the successive non-overlapping matches of a pattern, left to
  right, as \<open>re.findall\<close> and \<open>re.sub\<close> do: at each position the first way the pattern
  matches is taken and the scan goes on after it; where the pattern does not match, one
  character is passed over. Every pattern of the repository consumes at least one
  character; a match that consumes nothing is treated as no match.
\<close>

datatype piece = Kept char | Matched string "(nat \<times> string) list"

definition first_match :: "rx \<Rightarrow> char option \<Rightarrow> string \<Rightarrow> mstate option" where
  "first_match r p s =
     (case matches r (p, s, []) of
        [] \<Rightarrow> None
      | st' # _ \<Rightarrow> if length (rest st') < length s then Some st' else None)"

function scan :: "rx \<Rightarrow> char option \<Rightarrow> string \<Rightarrow> piece list" where
  "scan r p [] = []"
| "scan r p (c # cs) =
     (case first_match r p (c # cs) of
        None \<Rightarrow> Kept c # scan r (Some c) cs
      | Some (p', s', g) \<Rightarrow>
          Matched (take (length (c # cs) - length s') (c # cs)) g # scan r p' s')"
  by pat_completeness auto
termination
proof (relation "measure (\<lambda>(r, p, s). length s)")
  show "wf (measure (\<lambda>(r, p, s). length s))" by simp
next
  fix r :: rx and p :: "char option" and c :: char and cs :: string
  show "((r, Some c, cs), (r, p, c # cs)) \<in> measure (\<lambda>(r, p, s). length s)" by simp
next
  fix r :: rx and p :: "char option" and c :: char and cs :: string
    and x2 :: mstate and p' :: "char option" and y :: "string \<times> (nat \<times> string) list"
    and s' :: string and g :: "(nat \<times> string) list"
  assume "first_match r p (c # cs) = Some x2" "(p', y) = x2" "(s', g) = y"
  then have "first_match r p (c # cs) = Some (p', s', g)" by simp
  then have "length s' < length (c # cs)"
    by (auto simp: first_match_def rest_def split: list.splits if_splits)
  then show "((r, p', s'), (r, p, c # cs)) \<in> measure (\<lambda>(r, p, s). length s)" by simp
qed

text \<open>
  \<open>re.findall\<close>: the matched texts; for a pattern with one group, the texts of the
  group; for a pattern with two groups, the pairs of them (a group that took no part
  gives the empty string).
\<close>

definition group :: "nat \<Rightarrow> (nat \<times> string) list \<Rightarrow> string" where
  "group n g = (case map_of g n of None \<Rightarrow> [] | Some t \<Rightarrow> t)"

fun matched_texts :: "piece list \<Rightarrow> string list" where
  "matched_texts [] = []"
| "matched_texts (Kept c # ps) = matched_texts ps"
| "matched_texts (Matched t g # ps) = t # matched_texts ps"

fun matched_groups :: "piece list \<Rightarrow> (nat \<times> string) list list" where
  "matched_groups [] = []"
| "matched_groups (Kept c # ps) = matched_groups ps"
| "matched_groups (Matched t g # ps) = g # matched_groups ps"

definition re_findall :: "rx \<Rightarrow> string \<Rightarrow> string list" where
  "re_findall r s = matched_texts (scan r None s)"

definition re_findall1 :: "rx \<Rightarrow> string \<Rightarrow> string list" where
  "re_findall1 r s = map (group 1) (matched_groups (scan r None s))"

definition re_findall2 :: "rx \<Rightarrow> string \<Rightarrow> (string \<times> string) list" where
  "re_findall2 r s = map (\<lambda>g. (group 1 g, group 2 g)) (matched_groups (scan r None s))"

text \<open>\<open>re.sub\<close> with a replacement function of the matched text.\<close>

fun substituted :: "(string \<Rightarrow> string) \<Rightarrow> piece list \<Rightarrow> string" where
  "substituted f [] = []"
| "substituted f (Kept c # ps) = c # substituted f ps"
| "substituted f (Matched t g # ps) = f t @ substituted f ps"

definition re_sub :: "rx \<Rightarrow> (string \<Rightarrow> string) \<Rightarrow> string \<Rightarrow> string" where
  "re_sub r f s = substituted f (scan r None s)"

text \<open>\<open>re.search\<close> as a test: is there a match anywhere.\<close>

definition re_search :: "rx \<Rightarrow> string \<Rightarrow> bool" where
  "re_search r s = (matched_texts (scan r None s) \<noteq> [])"

text \<open>\<open>str.replace(old, new)\<close>.\<close>

function str_replace :: "string \<Rightarrow> string \<Rightarrow> string \<Rightarrow> string" where
  "str_replace old new [] = (if old = [] then new else [])"
| "str_replace old new (c # cs) =
     (if old = [] then new @ c # str_replace old new cs
      else if starts_with (c # cs) old then new @ str_replace old new (drop (length old) (c # cs))
      else c # str_replace old new cs)"
  by pat_completeness auto
termination
  by (relation "measure (\<lambda>(old, new, s). length s)") (auto simp: neq_Nil_conv)

text \<open>\<open>str.split()\<close> with no argument: the maximal runs of characters that are not whitespace.\<close>

fun split_acc :: "string \<Rightarrow> string \<Rightarrow> string list" where
  "split_acc w [] = (if w = [] then [] else [w])"
| "split_acc w (c # cs) =
     (if is_space c then (if w = [] then split_acc [] cs else w # split_acc [] cs)
      else split_acc (w @ [c]) cs)"

definition str_split :: "string \<Rightarrow> string list" where
  "str_split s = split_acc [] s"

section \<open>Text normalizer\<close>





text \<open>
  What the first substitution computes, written directly: every maximal run of
  whitespace becomes one space.
\<close>

function collapse :: "string \<Rightarrow> string" where
  "collapse [] = []"
| "collapse (c # cs) =
     (if is_space c then CHR '' '' # collapse (dropWhile is_space cs) else c # collapse cs)"
  by pat_completeness auto
termination
  by (relation "measure length") (auto simp: length_dropWhile_le less_Suc_eq_le)

section \<open>Table cells\<close>

text \<open>
  \<open>DocumentProcessor._clean_cell_text\<close>. The table \<open>replacements\<close> of the source is not
  read by the function; the two substitutions are \<open>\b\d*O\d*\b\<close> and \<open>\b\d*l\d*\b\<close>, each
  with the replacement \<open>m.group().replace(...)\<close>.
\<close>

definition digits_around :: "char \<Rightarrow> rx" where
  "digits_around c = seqs [WordB, Star (Cls is_decimal), Chr c, Star (Cls is_decimal), WordB]"

definition clean_cell_text :: "string \<Rightarrow> string" where
  "clean_cell_text text =
     (if text = [] then []
      else
        (let text = join '' '' (str_split text)
         in if list_ex is_digit text then
              (let text = re_sub (digits_around CHR ''O'') (str_replace ''O'' ''0'') text;
                   text = re_sub (digits_around CHR ''l'') (str_replace ''l'' ''1'') text
               in text)
            else text))"

section \<open>Character-level extraction\<close>

text \<open>
  \<open>DocumentProcessor._extract_from_chars\<close>. A character record of the page carries its
  text and two coordinates; \<open>top\<close> is the distance of the character from the top of the
  page. The coordinates are rationals (the exact values of the floats), and
  \<open>round(x, 1)\<close> rounds to a multiple of one tenth, a tie going to the even multiple.
\<close>

record page_char =
  char_text :: string
  char_top :: rat
  char_x0 :: rat

definition round1 :: "rat \<Rightarrow> rat" where
  "round1 x =
     (let t = x * 10; f = \<lfloor>t\<rfloor>; d = t - of_int f
      in of_int (if d < 1 / 2 then f else if 1 / 2 < d then f + 1
                 else if even f then f else f + 1) / 10)"

text \<open>The dictionary \<open>lines\<close>, in insertion order: \<open>lines[y].append(char)\<close>.\<close>

fun append_line :: "rat \<Rightarrow> page_char \<Rightarrow> (rat \<times> page_char list) list
    \<Rightarrow> (rat \<times> page_char list) list" where
  "append_line y c [] = [(y, [c])]"
| "append_line y c ((k, cs) # ls) =
     (if k = y then (k, cs @ [c]) # ls else (k, cs) # append_line y c ls)"

definition group_lines :: "page_char list \<Rightarrow> (rat \<times> page_char list) list" where
  "group_lines chars = foldl (\<lambda>ls c. append_line (round1 (char_top c)) c ls) [] chars"

definition line_of :: "(rat \<times> page_char list) list \<Rightarrow> rat \<Rightarrow> page_char list" where
  "line_of ls y = (case map_of ls y of None \<Rightarrow> [] | Some cs \<Rightarrow> cs)"

definition extract_from_chars :: "page_char list \<Rightarrow> string" where
  "extract_from_chars chars =
     (if chars = [] then []
      else
        (let ls = group_lines chars;
             text_lines =
               concat (map (\<lambda>y.
                   (let line_chars = sort_key char_x0 (line_of ls y);
                        line_text = concat (map char_text line_chars)
                    in if strip line_text \<noteq> [] then [strip line_text] else []))
                 (rev (sort (map fst ls))))
         in join ''\<newline>'' text_lines))"

section \<open>Structured field extraction in the chunker\<close>

text \<open>
  \<open>DocumentProcessor._extract_bill_info\<close>. Each pattern is the one of the source:
  \<^item> amounts \<open>\$\s*\d+[.,]\d{2}\<close>
  \<^item> dates \<open>\b\d{1,2}[/.-]\d{1,2}[/.-]\d{4}\b\<close>
  \<^item> energy \<open>\d+[.,]?\d*\s*(?:kWh|kwh|KWH|therm|Therm|THERM)\<close>, with \<open>re.IGNORECASE\<close>
  \<^item> accounts \<open>(?:Account|account|ACCOUNT)[\s\w]*?(\d{8,})\<close>
  \<^item> periods \<open>(?:Service|service|SERVICE|Period|period|PERIOD)[\s\w]*?(\d{1,2}[/.-]\d{1,2}[/.-]\d{4})\<close>
  \<^item> totals \<open>(?:Total|total|TOTAL|Amount|amount|AMOUNT)[\s\w]*?\$\s*\d+[.,]\d{2}\<close>
\<close>

definition rx_digit :: rx where
  "rx_digit = Cls is_decimal"

definition rx_space :: rx where
  "rx_space = Cls is_space"

definition is_space_or_word :: "char \<Rightarrow> bool" where
  "is_space_or_word c = (is_space c \<or> is_word c)"

definition rx_space_or_word :: rx where
  "rx_space_or_word = Cls is_space_or_word"

definition date_body :: rx where
  "date_body = seqs [between 1 2 rx_digit, one_of ''/.-'', between 1 2 rx_digit, one_of ''/.-'',
                     exactly 4 rx_digit]"

definition dollar_pattern :: rx where
  "dollar_pattern = seqs [Chr CHR ''$'', Star rx_space, one_or_more rx_digit, one_of ''.,'',
                          exactly 2 rx_digit]"

definition date_pattern :: rx where
  "date_pattern = seqs [WordB, date_body, WordB]"

definition energy_pattern :: rx where
  "energy_pattern =
     ignore_case (seqs [one_or_more rx_digit, Opt (one_of ''.,''), Star rx_digit, Star rx_space,
       alts [lit ''kWh'', lit ''kwh'', lit ''KWH'', lit ''therm'', lit ''Therm'', lit ''THERM'']])"

definition account_pattern :: rx where
  "account_pattern =
     seqs [alts [lit ''Account'', lit ''account'', lit ''ACCOUNT''], Lazy rx_space_or_word,
           Grp 1 (at_least 8 rx_digit)]"

definition period_pattern :: rx where
  "period_pattern =
     seqs [alts [lit ''Service'', lit ''service'', lit ''SERVICE'',
                 lit ''Period'', lit ''period'', lit ''PERIOD''],
           Lazy rx_space_or_word, Grp 1 date_body]"

definition total_pattern :: rx where
  "total_pattern =
     seqs [alts [lit ''Total'', lit ''total'', lit ''TOTAL'',
                 lit ''Amount'', lit ''amount'', lit ''AMOUNT''],
           Lazy rx_space_or_word, Chr CHR ''$'', Star rx_space, one_or_more rx_digit,
           one_of ''.,'', exactly 2 rx_digit]"

text \<open>
  A field of the report: nothing when there is no match, else the header and one
  indented line for each distinct match. The source iterates over \<open>set(matches)\<close>, whose
  order Python does not fix; the model lists the distinct matches in the order of their
  first occurrence.
\<close>

definition field_lines :: "string \<Rightarrow> string list \<Rightarrow> string list" where
  "field_lines header found =
     (if found = [] then [] else header # map (\<lambda>x. ''  '' @ x) (remdups found))"

definition amount_lines :: "string \<Rightarrow> string list" where
  "amount_lines text = field_lines ''AMOUNTS FOUND:'' (re_findall dollar_pattern text)"

definition extract_bill_info :: "string \<Rightarrow> string" where
  "extract_bill_info text =
     (let structured_info =
            amount_lines text
            @ field_lines ''\<newline>DATES FOUND:'' (re_findall date_pattern text)
            @ field_lines ''\<newline>ENERGY USAGE:'' (re_findall energy_pattern text)
            @ field_lines ''\<newline>ACCOUNT NUMBERS:'' (re_findall1 account_pattern text)
            @ field_lines ''\<newline>SERVICE PERIODS:'' (re_findall1 period_pattern text)
            @ field_lines ''\<newline>BILL TOTALS:'' (re_findall total_pattern text)
      in if structured_info \<noteq> []
         then ''=== EXTRACTED UTILITY BILL INFORMATION ===\<newline>'' @ join ''\<newline>'' structured_info
         else [])"

section \<open>Structured field extraction in the utility-bill processor\<close>

text \<open>
  \<open>UtilityBillProcessor\<close>: the patterns of \<open>self.patterns\<close>,
  \<^item> amounts \<open>\$\s*\d{1,3}(?:,\d{3})*\.\d{2}\<close>
  \<^item> dates \<open>\b\d{1,2}[/.-]\d{1,2}[/.-]\d{4}\b\<close>
  \<^item> kwh \<open>\d+[.,]?\d*\s*(?:kWh|kwh|KWH)\<close>
  \<^item> therms \<open>\d+[.,]?\d*\s*(?:therm|Therm|THERM)\<close>
  \<^item> account \<open>(?:Account|Acct)[\s#]*(\d{8,})\<close>
  \<^item> service period
    \<open>(?:Service|Bill)\s+(?:Period|Date)[\s:]*(D)\s*(?:to|-)?\s*(D)?\<close> with \<open>D\<close> the body of
    the date pattern;
  the last four are used with \<open>re.IGNORECASE\<close>.
\<close>

definition ubp_amounts :: rx where
  "ubp_amounts = seqs [Chr CHR ''$'', Star rx_space, between 1 3 rx_digit,
                       Star (Seq (Chr CHR '','') (exactly 3 rx_digit)), Chr CHR ''.'',
                       exactly 2 rx_digit]"

definition ubp_dates :: rx where
  "ubp_dates = seqs [WordB, date_body, WordB]"

definition ubp_kwh :: rx where
  "ubp_kwh = seqs [one_or_more rx_digit, Opt (one_of ''.,''), Star rx_digit, Star rx_space,
                   alts [lit ''kWh'', lit ''kwh'', lit ''KWH'']]"

definition ubp_therms :: rx where
  "ubp_therms = seqs [one_or_more rx_digit, Opt (one_of ''.,''), Star rx_digit, Star rx_space,
                      alts [lit ''therm'', lit ''Therm'', lit ''THERM'']]"

definition is_space_or :: "char \<Rightarrow> char \<Rightarrow> bool" where
  "is_space_or x c = (is_space c \<or> c = x)"

definition ubp_account :: rx where
  "ubp_account = seqs [alts [lit ''Account'', lit ''Acct''],
                       Star (Cls (is_space_or CHR ''#'')),
                       Grp 1 (at_least 8 rx_digit)]"

definition ubp_service_period :: rx where
  "ubp_service_period =
     seqs [alts [lit ''Service'', lit ''Bill''], one_or_more rx_space,
           alts [lit ''Period'', lit ''Date''], Star (Cls (is_space_or CHR '':'')),
           Grp 1 date_body, Star rx_space, Opt (alts [lit ''to'', lit ''-'']), Star rx_space,
           Opt (Grp 2 date_body)]"

text \<open>
  \<open>float(s)\<close> and \<open>int(s)\<close> on plain decimal numerals: optional surrounding whitespace,
  an optional sign, digits, and for \<open>float\<close> an optional point with digits on at least
  one side. \<open>None\<close> is the \<open>ValueError\<close>. The value is the exact rational. The other
  spellings Python reads (an exponent, \<open>inf\<close>, \<open>nan\<close>, underscores between digits) and the
  rounding of the value to a double are not modelled: the numerals that reach these
  functions are matches of the patterns above, which have none of those spellings, and
  on a numeral with two digits after the point the comparisons with \<open>10.0\<close> and
  \<open>2000.0\<close> give the same result on the double as on the exact value.
\<close>

definition digit_value :: "char \<Rightarrow> nat" where
  "digit_value c = code c - 48"

definition digits_value :: "string \<Rightarrow> nat" where
  "digits_value ds = foldl (\<lambda>n c. 10 * n + digit_value c) 0 ds"

definition unsigned :: "string \<Rightarrow> int \<times> string" where
  "unsigned s =
     (case s of
        [] \<Rightarrow> (1, [])
      | c # cs \<Rightarrow> if c = CHR ''-'' then (- 1, cs) else if c = CHR ''+'' then (1, cs) else (1, s))"

definition py_int :: "string \<Rightarrow> int option" where
  "py_int s =
     (case unsigned (strip s) of (sign, ds) \<Rightarrow>
        if ds \<noteq> [] \<and> list_all is_decimal ds then Some (sign * int (digits_value ds)) else None)"

definition py_float :: "string \<Rightarrow> rat option" where
  "py_float s =
     (case unsigned (strip s) of (sign, u) \<Rightarrow>
        (let ip = takeWhile is_decimal u; r = dropWhile is_decimal u
         in case r of
              [] \<Rightarrow> if ip = [] then None else Some (of_int sign * of_nat (digits_value ip))
            | c # fp \<Rightarrow>
                if c = CHR ''.'' \<and> list_all is_decimal fp \<and> (ip \<noteq> [] \<or> fp \<noteq> [])
                then Some (of_int sign *
                       (of_nat (digits_value ip) + of_nat (digits_value fp) / 10 ^ length fp))
                else None))"

text \<open>\<open>UtilityBillProcessor._is_reasonable_bill_amount\<close>; the \<open>except\<close> branch is \<open>None\<close>.\<close>

definition is_reasonable_bill_amount :: "string \<Rightarrow> bool" where
  "is_reasonable_bill_amount amount_str =
     (case py_float (str_replace '','' '''' (str_replace ''$'' '''' amount_str)) of
        None \<Rightarrow> False
      | Some amount \<Rightarrow> 10 \<le> amount \<and> amount \<le> 2000)"

text \<open>
  \<open>UtilityBillProcessor._is_valid_date\<close>: \<open>re.split(r'[/.-]', date_str)\<close> cuts at every
  separator character.
\<close>

fun split_on :: "(char \<Rightarrow> bool) \<Rightarrow> string \<Rightarrow> string \<Rightarrow> string list" where
  "split_on P w [] = [w]"
| "split_on P w (c # cs) = (if P c then w # split_on P [] cs else split_on P (w @ [c]) cs)"

definition is_valid_date :: "string \<Rightarrow> bool" where
  "is_valid_date date_str =
     (case split_on (among ''/.-'') [] date_str of
        [m, d, y] \<Rightarrow>
          (case (py_int m, py_int d, py_int y) of
             (Some month, Some day, Some year) \<Rightarrow>
               1 \<le> month \<and> month \<le> 12 \<and> 1 \<le> day \<and> day \<le> 31 \<and> 2020 \<le> year \<and> year \<le> 2030
           | _ \<Rightarrow> False)
      | _ \<Rightarrow> False)"

text \<open>
  \<open>UtilityBillProcessor._extract_bill_info\<close>. As above, the distinct matches are listed
  in the order of their first occurrence where the source goes through a \<open>set\<close>.
\<close>

definition reasonable_amounts :: "string \<Rightarrow> string list" where
  "reasonable_amounts text =
     filter is_reasonable_bill_amount (remdups (re_findall ubp_amounts text))"

definition valid_dates :: "string \<Rightarrow> string list" where
  "valid_dates text = filter is_valid_date (remdups (re_findall ubp_dates text))"

definition info_line :: "string \<Rightarrow> string list \<Rightarrow> string list" where
  "info_line label found = (if found = [] then [] else [label @ join '', '' found])"

definition ubp_extract_bill_info :: "string \<Rightarrow> string \<Rightarrow> string" where
  "ubp_extract_bill_info text source =
     (if text = [] \<or> length (strip text) < 10 then []
      else
        (let info_found =
               info_line ''AMOUNTS: '' (reasonable_amounts text)
               @ info_line ''DATES: '' (valid_dates text)
               @ info_line ''ELECTRICITY USAGE: '' (remdups (re_findall (ignore_case ubp_kwh) text))
               @ info_line ''GAS USAGE: '' (remdups (re_findall (ignore_case ubp_therms) text))
               @ info_line ''ACCOUNT: '' (remdups (re_findall1 (ignore_case ubp_account) text))
               @ info_line ''SERVICE PERIOD: ''
                   (map (\<lambda>(start, end'). if end' \<noteq> [] then start @ '' to '' @ end' else start)
                      (re_findall2 (ignore_case ubp_service_period) text))
         in if info_found \<noteq> [] then ''=== '' @ source @ '' ===\<newline>'' @ join ''\<newline>'' info_found
            else []))"

section \<open>Extraction orchestrator\<close>














section \<open>Loading and chunking documents\<close>

record document =
  content :: string
  source :: string
  filename :: string



text \<open>
  \<open>DocumentProcessor.chunk_documents\<close>. The chunks of one document: the structured
  chunk, when the lowercased file name contains \<open>pge\<close> or \<open>bill\<close> and the report is not
  empty, then the text chunks. \<open>None\<close> is a run of \<open>_split_text\<close> that never returns.
\<close>

datatype chunk_type = structured_bill_info | text_chunk

record chunk = document +
  chunk_id :: int
  total_chunks :: int
  ctype :: chunk_type

definition structured_chunks :: "document \<Rightarrow> chunk list" where
  "structured_chunks doc =
     (if contains (lower (filename doc)) ''pge'' \<or> contains (lower (filename doc)) ''bill'' then
        (let structured_info = extract_bill_info (content doc)
         in if structured_info \<noteq> [] then
              [\<lparr>content = structured_info, source = source doc, filename = filename doc,
                chunk_id = 0, total_chunks = 1, ctype = structured_bill_info\<rparr>]
            else [])
      else [])"

definition text_chunks :: "document \<Rightarrow> string list \<Rightarrow> chunk list" where
  "text_chunks doc doc_chunks =
     map (\<lambda>(i, chunk).
           \<lparr>content = chunk, source = source doc, filename = filename doc,
            chunk_id = int i + (if contains (lower (filename doc)) ''pge'' then 1 else 0),
            total_chunks = int (length doc_chunks)
                             + (if contains (lower (filename doc)) ''pge'' then 1 else 0),
            ctype = text_chunk\<rparr>)
         (enumerate 0 doc_chunks)"

definition chunk_document :: "processor \<Rightarrow> document \<Rightarrow> chunk list option" where
  "chunk_document self doc =
     (case split_text self (content doc) of
        None \<Rightarrow> None
      | Some doc_chunks \<Rightarrow> Some (structured_chunks doc @ text_chunks doc doc_chunks))"

fun chunk_documents :: "processor \<Rightarrow> document list \<Rightarrow> chunk list option" where
  "chunk_documents self [] = Some []"
| "chunk_documents self (doc # documents) =
     (case chunk_document self doc of
        None \<Rightarrow> None
      | Some chunks \<Rightarrow> map_option (\<lambda>more. chunks @ more) (chunk_documents self documents))"

section \<open>Inputs the claims are run on\<close>

definition default_processor :: processor where
  "default_processor = init byte_tokenizer 500 50 True"

definition bill_txt :: document where
  "bill_txt = \<lparr>content = ''$12.34'', source = ''docs/bill.txt'', filename = ''bill.txt''\<rparr>"

definition pge_bill_txt :: document where
  "pge_bill_txt =
     \<lparr>content = ''Total $150.00'', source = ''docs/pge-bill.txt'', filename = ''pge-bill.txt''\<rparr>"







definition two_lines :: "page_char list" where
  "two_lines =
     [\<lparr>char_text = ''a'', char_top = 10, char_x0 = 0\<rparr>,
      \<lparr>char_text = ''b'', char_top = 20, char_x0 = 0\<rparr>]"

section \<open>Facts about the text model\<close>

lemma starts_with_iff: "starts_with s p \<longleftrightarrow> (\<exists>ss. s = p @ ss)"
  by (induction s p rule: starts_with.induct) auto

lemma contains_iff: "contains s sub \<longleftrightarrow> (\<exists>ps ss. s = ps @ sub @ ss)"
proof (induction s)
  case Nil
  then show ?case by auto
next
  case (Cons c cs)
  show ?case
  proof
    assume "contains (c # cs) sub"
    then consider "starts_with (c # cs) sub" | "contains cs sub" by auto
    then show "\<exists>ps ss. c # cs = ps @ sub @ ss"
    proof cases
      case 1
      then obtain ss where "c # cs = sub @ ss" by (auto simp: starts_with_iff)
      then have "c # cs = [] @ sub @ ss" by simp
      then show ?thesis by blast
    next
      case 2
      then obtain ps ss where "cs = ps @ sub @ ss" using Cons.IH by auto
      then have "c # cs = (c # ps) @ sub @ ss" by simp
      then show ?thesis by blast
    qed
  next
    assume "\<exists>ps ss. c # cs = ps @ sub @ ss"
    then obtain ps ss where eq: "c # cs = ps @ sub @ ss" by auto
    show "contains (c # cs) sub"
    proof (cases ps)
      case Nil
      then have "starts_with (c # cs) sub" using eq by (auto simp: starts_with_iff)
      then show ?thesis by simp
    next
      case (Cons p ps')
      then have "cs = ps' @ sub @ ss" using eq by simp
      then have "contains cs sub" using Cons.IH by blast
      then show ?thesis by simp
    qed
  qed
qed

section \<open>Claims about the document classifier\<close>

text \<open>
  C5 (as stated): \<open>isUtilityBill\<close> of \<open>Con_Ed_Statement.pdf\<close> is true. On the code it is
  false: the lowercased name has an underscore where the indicator \<open>con ed\<close> has a space,
  and no other indicator occurs in it.
\<close>

theorem C5_con_ed_counterexample:
  "is_utility_bill ''Con_Ed_Statement.pdf'' = False"
  by code_simp

text \<open>
  C5 (amended): for every file name, \<open>_is_utility_bill\<close> is true if and only if the
  lowercased name contains at least one of the twelve indicators as a contiguous
  substring; it is true of \<open>pge-may-2025.pdf\<close> and of \<open>Con Ed Statement.pdf\<close>, and false
  of \<open>normal-document.pdf\<close> and of \<open>Con_Ed_Statement.pdf\<close>.
\<close>

theorem C5_is_utility_bill_iff:
  "(is_utility_bill fname \<longleftrightarrow>
      (\<exists>indicator ps ss.
          indicator \<in> set [''pge'', ''pg&e'', ''pacific gas'', ''electric'',
                             ''bill'', ''utility'', ''energy'', ''gas'',
                             ''edison'', ''sdge'', ''peco'', ''con ed'']
          \<and> lower fname = ps @ indicator @ ss))
   \<and> is_utility_bill ''pge-may-2025.pdf''
   \<and> \<not> is_utility_bill ''normal-document.pdf''
   \<and> \<not> is_utility_bill ''Con_Ed_Statement.pdf''
   \<and> is_utility_bill ''Con Ed Statement.pdf''"
proof -
  have "is_utility_bill fname \<longleftrightarrow>
      (\<exists>indicator ps ss. indicator \<in> set utility_indicators
          \<and> lower fname = ps @ indicator @ ss)"
    unfolding is_utility_bill_def Let_def list_ex_iff contains_iff by blast
  moreover have "is_utility_bill ''pge-may-2025.pdf''" by code_simp
  moreover have "\<not> is_utility_bill ''normal-document.pdf''" by code_simp
  moreover have "\<not> is_utility_bill ''Con_Ed_Statement.pdf''" by code_simp
  moreover have "is_utility_bill ''Con Ed Statement.pdf''" by code_simp
  ultimately show ?thesis unfolding utility_indicators_def by blast
qed

theorem C5_is_utility_bill_witness:
  "is_utility_bill ''my-energy-notes.txt''
   \<and> lower ''my-energy-notes.txt'' = ''my-'' @ ''energy'' @ ''-notes.txt''"
proof -
  have l: "lower ''my-energy-notes.txt'' = ''my-'' @ ''energy'' @ ''-notes.txt''"
    by code_simp
  have "\<exists>indicator ps ss.
          indicator \<in> set [''pge'', ''pg&e'', ''pacific gas'', ''electric'',
                             ''bill'', ''utility'', ''energy'', ''gas'',
                             ''edison'', ''sdge'', ''peco'', ''con ed'']
          \<and> lower ''my-energy-notes.txt'' = ps @ indicator @ ss"
    using l by (intro exI [of _ "''energy''"] exI [of _ "''my-''"] exI [of _ "''-notes.txt''"]) simp
  then have "is_utility_bill ''my-energy-notes.txt''"
    using C5_is_utility_bill_iff [of "''my-energy-notes.txt''"] by blast
  then show ?thesis using l by blast
qed

section \<open>Evaluating the character classes\<close>

text \<open>
  The classes are defined by ranges of code points. For running the model on concrete
  texts each class is also given by the bits of the character; the equations are proved
  from the definitions, one case for each of the 256 characters.
\<close>

lemma is_space_bits [code]:
  "is_space (Char b0 b1 b2 b3 b4 b5 b6 b7) \<longleftrightarrow>
     (if b7 then (\<not> b6 \<and> (if b5 then (\<not> b4 \<and> (\<not> b3 \<and> (\<not> b2 \<and> (\<not> b1 \<and> (\<not> b0))))) else (\<not> b4 \<and> (\<not> b3 \<and> (b2 \<and> (\<not> b1 \<and> b0)))))) else (\<not> b6 \<and> (if b5 then (\<not> b4 \<and> (\<not> b3 \<and> (\<not> b2 \<and> (\<not> b1 \<and> (\<not> b0))))) else (if b4 then (b3 \<and> b2) else (b3 \<and> (if b2 then (\<not> b1) else (b1 \<or> b0)))))))"
  by (cases b0; cases b1; cases b2; cases b3; cases b4; cases b5; cases b6; cases b7;
      simp add: is_space_def code_def)

lemma is_decimal_bits [code]:
  "is_decimal (Char b0 b1 b2 b3 b4 b5 b6 b7) \<longleftrightarrow>
     (\<not> b7 \<and> (\<not> b6 \<and> (b5 \<and> (b4 \<and> (\<not> b3 \<or> (\<not> b2 \<and> (\<not> b1)))))))"
  by (cases b0; cases b1; cases b2; cases b3; cases b4; cases b5; cases b6; cases b7;
      simp add: is_decimal_def code_def)

lemma is_digit_bits [code]:
  "is_digit (Char b0 b1 b2 b3 b4 b5 b6 b7) \<longleftrightarrow>
     (if b7 then (\<not> b6 \<and> (b5 \<and> (b4 \<and> (if b3 then (\<not> b2 \<and> (\<not> b1 \<and> b0)) else (\<not> b2 \<and> b1))))) else (\<not> b6 \<and> (b5 \<and> (b4 \<and> (\<not> b3 \<or> (\<not> b2 \<and> (\<not> b1)))))))"
  by (cases b0; cases b1; cases b2; cases b3; cases b4; cases b5; cases b6; cases b7;
      simp add: is_digit_def is_decimal_def code_def)

lemma is_alpha_bits [code]:
  "is_alpha (Char b0 b1 b2 b3 b4 b5 b6 b7) \<longleftrightarrow>
     (if b7 then (if b6 then (if b5 then (\<not> b4 \<or> (b3 \<or> (\<not> b2 \<or> (\<not> b1 \<or> (\<not> b0))))) else (\<not> b4 \<or> (b3 \<or> (\<not> b2 \<or> (\<not> b1 \<or> (\<not> b0)))))) else (b5 \<and> (if b4 then (if b3 then (\<not> b2 \<and> (b1 \<and> (\<not> b0))) else (b2 \<and> (\<not> b1 \<and> b0))) else (b3 \<and> (\<not> b2 \<and> (b1 \<and> (\<not> b0))))))) else (b6 \<and> (if b5 then (if b4 then (\<not> b3 \<or> (\<not> b2 \<and> (\<not> b1 \<or> (\<not> b0)))) else (b3 \<or> (b2 \<or> (b1 \<or> b0)))) else (if b4 then (\<not> b3 \<or> (\<not> b2 \<and> (\<not> b1 \<or> (\<not> b0)))) else (b3 \<or> (b2 \<or> (b1 \<or> b0)))))))"
  by (cases b0; cases b1; cases b2; cases b3; cases b4; cases b5; cases b6; cases b7;
      simp add: is_alpha_def code_def)

lemma is_alnum_bits [code]:
  "is_alnum (Char b0 b1 b2 b3 b4 b5 b6 b7) \<longleftrightarrow>
     (if b7 then (if b6 then (if b5 then (\<not> b4 \<or> (b3 \<or> (\<not> b2 \<or> (\<not> b1 \<or> (\<not> b0))))) else (\<not> b4 \<or> (b3 \<or> (\<not> b2 \<or> (\<not> b1 \<or> (\<not> b0)))))) else (b5 \<and> (if b4 then (if b3 then (if b2 then (\<not> b1 \<or> (\<not> b0)) else (if b1 then (\<not> b0) else b0)) else (if b2 then (\<not> b1 \<and> b0) else b1)) else (b3 \<and> (\<not> b2 \<and> (b1 \<and> (\<not> b0))))))) else (if b6 then (if b5 then (if b4 then (\<not> b3 \<or> (\<not> b2 \<and> (\<not> b1 \<or> (\<not> b0)))) else (b3 \<or> (b2 \<or> (b1 \<or> b0)))) else (if b4 then (\<not> b3 \<or> (\<not> b2 \<and> (\<not> b1 \<or> (\<not> b0)))) else (b3 \<or> (b2 \<or> (b1 \<or> b0))))) else (b5 \<and> (b4 \<and> (\<not> b3 \<or> (\<not> b2 \<and> (\<not> b1)))))))"
  by (cases b0; cases b1; cases b2; cases b3; cases b4; cases b5; cases b6; cases b7;
      simp add: is_alnum_def is_alpha_def is_digit_def is_decimal_def code_def)

lemma lower_char_bits [code]:
  "lower_char (Char b0 b1 b2 b3 b4 b5 b6 b7) =
     (if (if b7 then (b6 \<and> (\<not> b5 \<and> (\<not> b4 \<or> (if b3 then (\<not> b2 \<or> (\<not> b1 \<or> (\<not> b0))) else (\<not> b2 \<or> (\<not> b1 \<or> (\<not> b0))))))) else (b6 \<and> (\<not> b5 \<and> (if b4 then (\<not> b3 \<or> (\<not> b2 \<and> (\<not> b1 \<or> (\<not> b0)))) else (b3 \<or> (b2 \<or> (b1 \<or> b0)))))))
      then Char b0 b1 b2 b3 b4 True b6 b7 else Char b0 b1 b2 b3 b4 b5 b6 b7)"
  by (cases b0; cases b1; cases b2; cases b3; cases b4; cases b5; cases b6; cases b7;
      simp add: lower_char_def code_def char_of_def bit_Suc_0_iff)

lemma upper_char_bits [code]:
  "upper_char (Char b0 b1 b2 b3 b4 b5 b6 b7) =
     (if (if b7 then (b6 \<and> (b5 \<and> (\<not> b4 \<or> (if b3 then (\<not> b2 \<or> (\<not> b1 \<or> (\<not> b0))) else (\<not> b2 \<or> (\<not> b1 \<or> (\<not> b0))))))) else (b6 \<and> (b5 \<and> (if b4 then (\<not> b3 \<or> (\<not> b2 \<and> (\<not> b1 \<or> (\<not> b0)))) else (b3 \<or> (b2 \<or> (b1 \<or> b0)))))))
      then Char b0 b1 b2 b3 b4 False b6 b7 else Char b0 b1 b2 b3 b4 b5 b6 b7)"
  by (cases b0; cases b1; cases b2; cases b3; cases b4; cases b5; cases b6; cases b7;
      simp add: upper_char_def code_def char_of_def bit_Suc_0_iff)

section \<open>Claims about the token windows\<close>

lemma py_slice_window:
  assumes "s < length xs" "0 < cs"
  shows "py_slice xs (int s) (min (int s + cs) (int (length xs))) = take (nat cs) (drop s xs)"
proof (cases "int s + cs \<le> int (length xs)")
  case True
  then have "min (int s + cs) (int (length xs)) = int s + cs" by simp
  moreover have "min (nat (int s + cs)) (length xs) = nat (int s + cs)" using True assms by linarith
  moreover have "nat (int s + cs) - s = nat cs" using assms by linarith
  ultimately show ?thesis using assms by (simp add: py_slice_def slice_bound_def Let_def)
next
  case False
  then have m: "min (int s + cs) (int (length xs)) = int (length xs)" by simp
  have "length (drop s xs) \<le> nat cs" using False by simp
  then have "take (nat cs) (drop s xs) = drop s xs" by simp
  then show ?thesis using assms m by (simp add: py_slice_def slice_bound_def Let_def)
qed

lemma split_loop_windows:
  assumes ov: "0 \<le> ov" "ov < cs"
  shows "s < length tokens \<Longrightarrow>
    \<exists>ws. split_loop cs ov tokens (int s) acc = Some (acc @ ws) \<and> ws \<noteq> []
       \<and> (\<forall>k<length ws. s + k * nat (cs - ov) < length tokens
              \<and> ws ! k = take (nat cs) (drop (s + k * nat (cs - ov)) tokens))
       \<and> length tokens \<le> s + (length ws - 1) * nat (cs - ov) + nat cs
       \<and> hd ws @ concat (map (drop (nat ov)) (tl ws)) = drop s tokens"
proof (induction "length tokens - s" arbitrary: s acc rule: less_induct)
  case less
  define n where "n = length tokens"
  define w where "w = take (nat cs) (drop s tokens)"
  have cs: "0 < cs" using ov by simp
  have sl: "py_slice tokens (int s) (min (int s + cs) (int (length tokens))) = w"
    unfolding w_def using py_slice_window [OF less.prems cs] .
  show ?case
  proof (cases "int n \<le> int s + cs")
    case True
    then have r: "split_loop cs ov tokens (int s) acc = Some (acc @ [w])"
      using less.prems sl by (subst split_loop.simps) (simp add: n_def Let_def)
    have "length (drop s tokens) \<le> nat cs" using True by (simp add: n_def)
    then have w: "w = drop s tokens" by (simp add: w_def)
    have "length tokens \<le> s + nat cs" using True n_def by linarith
    then show ?thesis using r w less.prems by (intro exI [of _ "[w]"]) (simp add: w_def)
  next
    case False
    define s' where "s' = s + nat (cs - ov)"
    have s'n: "s' < length tokens" using False ov by (simp add: s'_def n_def)
    have dec: "length tokens - s' < length tokens - s" using s'n ov by (simp add: s'_def)
    have is': "int s + (cs - ov) = int s'" using ov by (simp add: s'_def)
    obtain ws' where IH:
      "split_loop cs ov tokens (int s') (acc @ [w]) = Some ((acc @ [w]) @ ws')"
      "ws' \<noteq> []"
      "\<forall>k<length ws'. s' + k * nat (cs - ov) < length tokens
              \<and> ws' ! k = take (nat cs) (drop (s' + k * nat (cs - ov)) tokens)"
      "length tokens \<le> s' + (length ws' - 1) * nat (cs - ov) + nat cs"
      "hd ws' @ concat (map (drop (nat ov)) (tl ws')) = drop s' tokens"
      using less.hyps [OF dec s'n, of "acc @ [w]"] by blast
    have r: "split_loop cs ov tokens (int s) acc = Some (acc @ (w # ws'))"
      using less.prems sl False IH(1) is'
      by (subst split_loop.simps) (simp add: n_def Let_def)
    have win: "\<forall>k<length (w # ws'). s + k * nat (cs - ov) < length tokens
              \<and> (w # ws') ! k = take (nat cs) (drop (s + k * nat (cs - ov)) tokens)"
    proof (intro allI impI)
      fix k assume k: "k < length (w # ws')"
      show "s + k * nat (cs - ov) < length tokens
              \<and> (w # ws') ! k = take (nat cs) (drop (s + k * nat (cs - ov)) tokens)"
      proof (cases k)
        case 0
        then show ?thesis using less.prems by (simp add: w_def)
      next
        case (Suc k')
        then have "k' < length ws'" using k by simp
        then have a: "s' + k' * nat (cs - ov) < length tokens
              \<and> ws' ! k' = take (nat cs) (drop (s' + k' * nat (cs - ov)) tokens)"
          using IH(3) by blast
        have e: "s + k * nat (cs - ov) = s' + k' * nat (cs - ov)"
          using Suc by (simp add: s'_def)
        have "(w # ws') ! k = ws' ! k'" using Suc by simp
        then show ?thesis unfolding e using a by simp
      qed
    qed
    have lastw: "length tokens \<le> s + (length (w # ws') - 1) * nat (cs - ov) + nat cs"
    proof -
      have "length ws' = Suc (length ws' - 1)" using IH(2) by (cases ws') auto
      then have "length ws' * nat (cs - ov) = nat (cs - ov) + (length ws' - 1) * nat (cs - ov)"
        by (metis mult_Suc)
      then show ?thesis using IH(4) by (simp add: s'_def)
    qed
    have recon: "hd (w # ws') @ concat (map (drop (nat ov)) (tl (w # ws'))) = drop s tokens"
    proof -
      have hd': "hd ws' = take (nat cs) (drop s' tokens)"
        using IH(2,3) by (cases ws') (auto simp: hd_conv_nth)
      have "nat ov < length (hd ws')"
        using False ov s'n by (simp add: hd' s'_def n_def)
      then have "drop (nat ov) (hd ws' @ concat (map (drop (nat ov)) (tl ws')))
                 = drop (nat ov) (hd ws') @ concat (map (drop (nat ov)) (tl ws'))"
        by simp
      moreover have "concat (map (drop (nat ov)) ws')
                 = drop (nat ov) (hd ws') @ concat (map (drop (nat ov)) (tl ws'))"
        using IH(2) by (cases ws') auto
      ultimately have "concat (map (drop (nat ov)) ws') = drop (nat ov) (drop s' tokens)"
        using IH(5) by simp
      also have "\<dots> = drop (nat cs) (drop s tokens)"
      proof -
        have "nat ov + s' = nat cs + s" using ov by (simp add: s'_def)
        then show ?thesis by (simp add: add.commute)
      qed
      finally have "w @ concat (map (drop (nat ov)) ws') = drop s tokens"
        unfolding w_def by (simp only: append_take_drop_id)
      then show ?thesis by simp
    qed
    show ?thesis using r win lastw recon by (intro exI [of _ "w # ws'"]) blast
  qed
qed

lemma split_loop_terminates:
  assumes "ov < cs"
  shows "\<exists>ws. split_loop cs ov tokens start acc = Some ws"
proof (induction "nat (int (length tokens) - start)" arbitrary: start acc rule: less_induct)
  case less
  show ?case
  proof (cases "start < int (length tokens)")
    case False
    then show ?thesis by (subst split_loop.simps) simp
  next
    case True
    show ?thesis
    proof (cases "int (length tokens) \<le> min (start + cs) (int (length tokens))")
      case stop: True
      then show ?thesis using True by (subst split_loop.simps) (simp add: Let_def)
    next
      case go: False
      have "nat (int (length tokens) - (start + (cs - ov))) < nat (int (length tokens) - start)"
        using True assms by linarith
      then obtain ws where
        "split_loop cs ov tokens (start + (cs - ov))
           (acc @ [py_slice tokens start (min (start + cs) (int (length tokens)))]) = Some ws"
        using less by blast
      then show ?thesis using True go by (subst split_loop.simps) (simp add: Let_def)
    qed
  qed
qed

lemma split_loop_stuck:
  assumes "split_loop cs ov tokens start acc = Some y"
  shows "\<not> (\<not> ov < cs \<and> cs < int (length tokens) \<and> tokens \<noteq> [] \<and> start \<le> 0)"
proof (rule split_loop.raw_induct
    [where P = "\<lambda>cs ov tokens start chunks y.
                  \<not> (\<not> ov < cs \<and> cs < int (length tokens) \<and> tokens \<noteq> [] \<and> start \<le> 0)",
     OF _ assms])
  fix loop :: "int \<Rightarrow> int \<Rightarrow> nat list \<Rightarrow> int \<Rightarrow> nat list list \<Rightarrow> nat list list option"
  fix cs ov :: int and tokens :: "nat list" and start :: int
    and chunks y :: "nat list list"
  assume IH: "\<And>cs ov tokens start chunks y. loop cs ov tokens start chunks = Some y \<Longrightarrow>
           \<not> (\<not> ov < cs \<and> cs < int (length tokens) \<and> tokens \<noteq> [] \<and> start \<le> 0)"
  assume eq: "(if start < int (length tokens) then
        (let end' = min (start + cs) (int (length tokens));
             chunk_tokens = py_slice tokens start end';
             chunks' = chunks @ [chunk_tokens]
         in if end' \<ge> int (length tokens) then Some chunks'
            else loop cs ov tokens (start + (cs - ov)) chunks')
      else Some chunks) = Some y"
  show "\<not> (\<not> ov < cs \<and> cs < int (length tokens) \<and> tokens \<noteq> [] \<and> start \<le> 0)"
  proof
    assume inv: "\<not> ov < cs \<and> cs < int (length tokens) \<and> tokens \<noteq> [] \<and> start \<le> 0"
    then have lt: "start < int (length tokens)" by (cases tokens) auto
    have e: "min (start + cs) (int (length tokens)) = start + cs" using inv by simp
    have "\<not> int (length tokens) \<le> start + cs" using inv by simp
    then have "loop cs ov tokens (start + (cs - ov))
                 (chunks @ [py_slice tokens start (start + cs)]) = Some y"
      using eq lt e by (simp add: Let_def)
    moreover have "\<not> ov < cs \<and> cs < int (length tokens) \<and> tokens \<noteq> [] \<and> start + (cs - ov) \<le> 0"
      using inv by simp
    ultimately show False using IH by blast
  qed
qed

lemma split_loop_diverges:
  assumes "\<not> ov < cs" "cs < int (length tokens)" "tokens \<noteq> []"
  shows "split_loop cs ov tokens 0 [] = None"
proof (cases "split_loop cs ov tokens 0 []")
  case None
  then show ?thesis .
next
  case (Some y)
  then show ?thesis using split_loop_stuck [OF Some] assms by simp
qed


text \<open>
  C2: with \<open>0 \<le> chunk_overlap < chunk_size\<close>, a text of at most \<open>chunk_size\<close> tokens
  yields the one chunk that is the text itself. A longer text yields the decoded windows
  \<open>ws\<close>: window \<open>k\<close> starts at token \<open>k * (chunk_size - chunk_overlap)\<close> and holds
  \<open>min chunk_size (tokens remaining)\<close> tokens, every token index lies in some window, and
  the first window followed by the other windows without their first \<open>chunk_overlap\<close>
  tokens is the whole token sequence.
\<close>

theorem C2_split_text_windows:
  assumes "0 \<le> chunk_overlap self" "chunk_overlap self < chunk_size self"
  shows "let tokens = encode (encoding self) text;
             step = nat (chunk_size self - chunk_overlap self)
         in (int (length tokens) \<le> chunk_size self \<longrightarrow> split_text self text = Some [text])
          \<and> (chunk_size self < int (length tokens) \<longrightarrow>
              (\<exists>ws. split_text self text = Some (map (decode (encoding self)) ws)
                 \<and> ws \<noteq> []
                 \<and> (\<forall>k<length ws. k * step < length tokens
                        \<and> ws ! k = take (min (nat (chunk_size self)) (length tokens - k * step))
                                      (drop (k * step) tokens)
                        \<and> length (ws ! k) = min (nat (chunk_size self)) (length tokens - k * step))
                 \<and> (\<forall>i<length tokens. \<exists>k<length ws. k * step \<le> i \<and> i < k * step + length (ws ! k))
                 \<and> hd ws @ concat (map (drop (nat (chunk_overlap self))) (tl ws)) = tokens))"
proof -
  define tokens where "tokens = encode (encoding self) text"
  define cs where "cs = chunk_size self"
  define ov where "ov = chunk_overlap self"
  define step where "step = nat (cs - ov)"
  have ov: "0 \<le> ov" "ov < cs" using assms by (simp_all add: cs_def ov_def)
  have step: "0 < step" "step \<le> nat cs" using ov by (simp_all add: step_def)
  have small: "int (length tokens) \<le> cs \<longrightarrow> split_text self text = Some [text]"
    by (simp add: split_text_def tokens_def cs_def Let_def)
  have big: "\<exists>ws. split_text self text = Some (map (decode (encoding self)) ws)
                 \<and> ws \<noteq> []
                 \<and> (\<forall>k<length ws. k * step < length tokens
                        \<and> ws ! k = take (min (nat cs) (length tokens - k * step))
                                      (drop (k * step) tokens)
                        \<and> length (ws ! k) = min (nat cs) (length tokens - k * step))
                 \<and> (\<forall>i<length tokens. \<exists>k<length ws. k * step \<le> i \<and> i < k * step + length (ws ! k))
                 \<and> hd ws @ concat (map (drop (nat ov)) (tl ws)) = tokens"
    if long: "cs < int (length tokens)"
  proof -
    have ne: "0 < length tokens" using long ov by (cases tokens) auto
    obtain ws where W:
      "split_loop cs ov tokens (int 0) [] = Some ([] @ ws)" "ws \<noteq> []"
      "\<forall>k<length ws. 0 + k * nat (cs - ov) < length tokens
              \<and> ws ! k = take (nat cs) (drop (0 + k * nat (cs - ov)) tokens)"
      "length tokens \<le> 0 + (length ws - 1) * nat (cs - ov) + nat cs"
      "hd ws @ concat (map (drop (nat ov)) (tl ws)) = drop 0 tokens"
      using split_loop_windows [OF ov ne, of "[]"] by blast
    have r: "split_text self text = Some (map (decode (encoding self)) ws)"
      using long W(1) by (simp add: split_text_def tokens_def cs_def ov_def Let_def)
    have win: "\<forall>k<length ws. k * step < length tokens
                        \<and> ws ! k = take (min (nat cs) (length tokens - k * step))
                                      (drop (k * step) tokens)
                        \<and> length (ws ! k) = min (nat cs) (length tokens - k * step)"
    proof (intro allI impI)
      fix k assume "k < length ws"
      then have a: "k * step < length tokens" "ws ! k = take (nat cs) (drop (k * step) tokens)"
        using W(3) by (simp_all add: step_def)
      have "take (nat cs) (drop (k * step) tokens)
            = take (min (nat cs) (length tokens - k * step)) (drop (k * step) tokens)"
        by (simp add: min_def)
      then show "k * step < length tokens
                        \<and> ws ! k = take (min (nat cs) (length tokens - k * step))
                                      (drop (k * step) tokens)
                        \<and> length (ws ! k) = min (nat cs) (length tokens - k * step)"
        using a by (simp add: min.commute)
    qed
    have cover: "\<forall>i<length tokens. \<exists>k<length ws. k * step \<le> i \<and> i < k * step + length (ws ! k)"
    proof (intro allI impI)
      fix i assume i: "i < length tokens"
      have lw: "0 < length ws" using W(2) by simp
      define k where "k = min (i div step) (length ws - 1)"
      have kl: "k < length ws" using lw unfolding k_def by linarith
      have "k * step \<le> (i div step) * step" by (simp add: k_def)
      then have lo: "k * step \<le> i" using step(1) by (metis div_times_less_eq_dividend le_trans)
      have len: "length (ws ! k) = min (nat cs) (length tokens - k * step)" using win kl by blast
      have hi: "i < k * step + min (nat cs) (length tokens - k * step)"
      proof (cases "i div step \<le> length ws - 1")
        case True
        then have "k = i div step" by (simp add: k_def)
        then have "i < k * step + step" using step(1)
          by (metis add.commute dividend_less_div_times mult.commute)
        then have "i < k * step + nat cs" using step(2) by simp
        then show ?thesis using i lo by simp
      next
        case False
        then have "k = length ws - 1" by (simp add: k_def)
        then have "length tokens \<le> k * step + nat cs" using W(4) by (simp add: step_def)
        then show ?thesis using i lo by simp
      qed
      show "\<exists>k<length ws. k * step \<le> i \<and> i < k * step + length (ws ! k)"
        using kl lo hi len by auto
    qed
    show ?thesis using r W(2) win cover W(5) by auto
  qed
  show ?thesis
    using small big unfolding Let_def tokens_def cs_def ov_def step_def by blast
qed

theorem C2_split_text_windows_witness:
  "0 \<le> chunk_overlap C2_example \<and> chunk_overlap C2_example < chunk_size C2_example
   \<and> chunk_size C2_example < int (length (encode (encoding C2_example) ''abcdefghijk''))
   \<and> (\<exists>ws. split_text C2_example ''abcdefghijk'' = Some (map (decode (encoding C2_example)) ws)
         \<and> hd ws @ concat (map (drop (nat (chunk_overlap C2_example))) (tl ws))
            = encode (encoding C2_example) ''abcdefghijk'')
   \<and> split_text C2_example ''abcdefghijk'' = Some [''abcd'', ''defg'', ''ghij'', ''jk'']
   \<and> split_text C2_example ''abcd'' = Some [''abcd'']"
proof -
  have h1: "0 \<le> chunk_overlap C2_example" by code_simp
  have h2: "chunk_overlap C2_example < chunk_size C2_example" by code_simp
  have h3: "chunk_size C2_example < int (length (encode (encoding C2_example) ''abcdefghijk''))"
    by code_simp
  have "\<exists>ws. split_text C2_example ''abcdefghijk'' = Some (map (decode (encoding C2_example)) ws)
         \<and> hd ws @ concat (map (drop (nat (chunk_overlap C2_example))) (tl ws))
            = encode (encoding C2_example) ''abcdefghijk''"
    using C2_split_text_windows [OF h1 h2, of "''abcdefghijk''"] h3 unfolding Let_def by blast
  moreover have "split_text C2_example ''abcdefghijk'' = Some [''abcd'', ''defg'', ''ghij'', ''jk'']"
    by code_simp
  moreover have "split_text C2_example ''abcd'' = Some [''abcd'']" by code_simp
  ultimately show ?thesis using h1 h2 h3 by blast
qed

text \<open>
  C10 (as stated): for any text whose token count exceeds \<open>chunk_size\<close>, the precondition
  \<open>chunk_overlap < chunk_size\<close> is necessary for termination. With \<open>chunk_size = -1\<close>,
  \<open>chunk_overlap = 0\<close> and the empty text, the token count \<open>0\<close> exceeds \<open>chunk_size\<close>, the
  precondition fails, and the loop body never runs: \<open>_split_text\<close> returns the empty list.
\<close>

theorem C10_necessity_counterexample:
  "chunk_size (init byte_tokenizer (- 1) 0 True)
      < int (length (encode (encoding (init byte_tokenizer (- 1) 0 True)) ''''))
   \<and> \<not> chunk_overlap (init byte_tokenizer (- 1) 0 True)
         < chunk_size (init byte_tokenizer (- 1) 0 True)
   \<and> split_text (init byte_tokenizer (- 1) 0 True) '''' = Some []"
  by code_simp

text \<open>
  C10 (amended): \<open>_split_text\<close> returns for every text when
  \<open>chunk_overlap < chunk_size\<close>; the constructor stores any pair of integers; and for a
  text with at least one token whose token count exceeds \<open>chunk_size\<close>, it never returns
  when \<open>chunk_overlap < chunk_size\<close> fails.
\<close>

theorem C10_split_text_termination:
  "(chunk_overlap self < chunk_size self \<longrightarrow> (\<exists>chunks. split_text self text = Some chunks))
   \<and> chunk_size (init enc cs ov ocr) = cs \<and> chunk_overlap (init enc cs ov ocr) = ov
   \<and> (chunk_size self < int (length (encode (encoding self) text))
        \<and> encode (encoding self) text \<noteq> []
        \<and> \<not> chunk_overlap self < chunk_size self
      \<longrightarrow> split_text self text = None)"
proof -
  have t: "\<exists>chunks. split_text self text = Some chunks"
    if h: "chunk_overlap self < chunk_size self"
  proof -
    obtain ws where "split_loop (chunk_size self) (chunk_overlap self)
                       (encode (encoding self) text) 0 [] = Some ws"
      using split_loop_terminates [OF h] by blast
    then show ?thesis by (simp add: split_text_def Let_def)
  qed
  have d: "split_text self text = None"
    if "chunk_size self < int (length (encode (encoding self) text))"
      "encode (encoding self) text \<noteq> []" "\<not> chunk_overlap self < chunk_size self"
    using split_loop_diverges [OF that(3) that(1) that(2)] that(1)
    by (simp add: split_text_def Let_def)
  show ?thesis using t d by (simp add: init_def)
qed

theorem C10_split_text_termination_witness:
  "chunk_overlap (init byte_tokenizer 4 1 True) < chunk_size (init byte_tokenizer 4 1 True)
   \<and> (\<exists>chunks. split_text (init byte_tokenizer 4 1 True) ''abcdefghijk'' = Some chunks)
   \<and> chunk_size (init byte_tokenizer 4 4 True)
        < int (length (encode (encoding (init byte_tokenizer 4 4 True)) ''abcde''))
   \<and> encode (encoding (init byte_tokenizer 4 4 True)) ''abcde'' \<noteq> []
   \<and> \<not> chunk_overlap (init byte_tokenizer 4 4 True) < chunk_size (init byte_tokenizer 4 4 True)
   \<and> split_text (init byte_tokenizer 4 4 True) ''abcde'' = None"
proof -
  have a: "chunk_overlap (init byte_tokenizer 4 1 True) < chunk_size (init byte_tokenizer 4 1 True)"
    by code_simp
  have b: "chunk_size (init byte_tokenizer 4 4 True)
        < int (length (encode (encoding (init byte_tokenizer 4 4 True)) ''abcde''))"
    by code_simp
  have c: "encode (encoding (init byte_tokenizer 4 4 True)) ''abcde'' \<noteq> []" by code_simp
  have d: "\<not> chunk_overlap (init byte_tokenizer 4 4 True) < chunk_size (init byte_tokenizer 4 4 True)"
    by code_simp
  have "\<exists>chunks. split_text (init byte_tokenizer 4 1 True) ''abcdefghijk'' = Some chunks"
    using C10_split_text_termination [of "init byte_tokenizer 4 1 True" "''abcdefghijk''"] a
    by blast
  moreover have "split_text (init byte_tokenizer 4 4 True) ''abcde'' = None"
    using C10_split_text_termination [of "init byte_tokenizer 4 4 True" "''abcde''"] b c d
    by blast
  ultimately show ?thesis using a b c d by blast
qed

section \<open>Claims about chunk numbering\<close>

text \<open>
  C1: for a file whose lowercased name contains \<open>pge\<close> or \<open>bill\<close> and whose report is not
  empty, the structured chunk has \<open>chunk_id\<close> 0, the \<open>N\<close> text chunks are numbered \<open>1..N\<close>
  and every chunk has \<open>total_chunks = N + 1\<close>. The code does otherwise. For \<open>bill.txt\<close>
  with the content \<open>$12.34\<close> the structured chunk and the one text chunk both have
  \<open>chunk_id = 0\<close> and \<open>total_chunks = 1\<close>: the offset is added only when the name contains
  \<open>pge\<close>. For \<open>pge-bill.txt\<close> the text chunk has \<open>chunk_id = 1\<close> and \<open>total_chunks = 2\<close>, and
  the structured chunk has \<open>total_chunks = 1\<close>.
\<close>

theorem C1_chunk_numbering_on_bill_files:
  "map_option (map (\<lambda>c. (ctype c, chunk_id c, total_chunks c)))
       (chunk_documents default_processor [bill_txt])
     = Some [(structured_bill_info, 0, 1), (text_chunk, 0, 1)]
   \<and> map_option (map (\<lambda>c. (ctype c, chunk_id c, total_chunks c)))
       (chunk_documents default_processor [pge_bill_txt])
     = Some [(structured_bill_info, 0, 1), (text_chunk, 1, 2)]
   \<and> extract_bill_info (content bill_txt) \<noteq> []
   \<and> extract_bill_info (content pge_bill_txt) \<noteq> []"
  by code_simp

section \<open>Claims about character-level extraction\<close>

text \<open>
  C9: the lines are emitted in ascending order of their vertical coordinate, the line
  nearest the top of the page first. On two characters \<open>a\<close> at \<open>top = 10\<close> and \<open>b\<close> at
  \<open>top = 20\<close> the code emits the line of \<open>b\<close> first: the keys are sorted with
  \<open>reverse=True\<close>, although \<open>top\<close> grows downwards.
\<close>

theorem C9_lines_bottom_first:
  "extract_from_chars two_lines = ''b\<newline>a''"
  by code_simp

section \<open>Claims about the extraction orchestrator\<close>






end
